theory Spec2Isabelle
  imports Main "HOL-Library.Word"
begin

section \<open>Strings\<close>

text \<open>
  A JavaScript string is a sequence of UTF-16 code units. The regular expressions of
  \<^verbatim>\<open>formatText\<close> (no \<^verbatim>\<open>u\<close> flag) and \<^verbatim>\<open>String.prototype.trim\<close> both work on
  code units, so a string is modelled as a list of 16-bit words. \<open>js\<close> reads an ASCII
  literal of the source.
\<close>

type_synonym jsstring = "16 word list"

definition js :: "string \<Rightarrow> jsstring" where
  "js s = map (\<lambda>c. of_nat (of_char c)) s"

text \<open>
  ECMAScript \<^verbatim>\<open>LineTerminator\<close>: LF, CR, LS (U+2028), PS (U+2029). These are the code
  units that \<^verbatim>\<open>.\<close> does not match and that \<^verbatim>\<open>trim\<close> strips.
\<close>

definition is_line_terminator :: "16 word \<Rightarrow> bool" where
  "is_line_terminator c \<longleftrightarrow> c = 0x0A \<or> c = 0x0D \<or> c = 0x2028 \<or> c = 0x2029"

text \<open>
  ECMAScript \<^verbatim>\<open>WhiteSpace\<close>: TAB, VT, FF, ZWNBSP (U+FEFF) and the Unicode category Zs
  (SP, NBSP, U+1680, U+2000 to U+200A, U+202F, U+205F, U+3000).
\<close>

definition is_white_space :: "16 word \<Rightarrow> bool" where
  "is_white_space c \<longleftrightarrow>
     c = 0x09 \<or> c = 0x0B \<or> c = 0x0C \<or> c = 0x20 \<or> c = 0xA0 \<or> c = 0x1680
     \<or> (0x2000 \<le> c \<and> c \<le> 0x200A) \<or> c = 0x202F \<or> c = 0x205F \<or> c = 0x3000 \<or> c = 0xFEFF"

definition trim_char :: "16 word \<Rightarrow> bool" where
  "trim_char c \<longleftrightarrow> is_white_space c \<or> is_line_terminator c"

text \<open>\<^verbatim>\<open>String.prototype.trim\<close>: white space and line terminators removed at both ends.\<close>

definition trim :: "jsstring \<Rightarrow> jsstring" where
  "trim s = rev (dropWhile trim_char (rev (dropWhile trim_char s)))"

text \<open>
  The decimal rendering of a non-negative integer, as a template literal
  \<^verbatim>\<open>${Date.now()}\<close> produces it.
\<close>

fun decimal :: "nat \<Rightarrow> jsstring" where
  "decimal n =
     (if n < 10 then [of_nat (48 + n)]
      else decimal (n div 10) @ [of_nat (48 + n mod 10)])"

declare decimal.simps [simp del]


section \<open>types.ts\<close>

datatype Sender = USER | BOT

text \<open>
  \<^verbatim>\<open>interface Message { id: string; text: string; sender: Sender }\<close>. The fields carry
  the suffix \<open>_msg\<close>: \<open>id\<close> is a constant of HOL and \<open>text\<close> a command of Isabelle.
\<close>

record Message =
  id_msg :: jsstring
  text_msg :: jsstring
  sender_msg :: Sender


section \<open>services/geminiService.ts\<close>

text \<open>A thrown JavaScript value; the handlers of the program only log it.\<close>

datatype js_error = Error string

record GoogleGenAI =
  apiKey :: jsstring

text \<open>
  The module body, run once when the module is first imported. Its input is the value of
  \<^verbatim>\<open>process.env.API_KEY\<close>: \<open>None\<close> is \<^verbatim>\<open>undefined\<close>. \<^verbatim>\<open>!API_KEY\<close> holds for
  \<^verbatim>\<open>undefined\<close> and for the empty string. The module either throws, and then exports
  nothing, or yields the client \<^verbatim>\<open>ai\<close> that \<^verbatim>\<open>createChatSession\<close> closes over.
\<close>

definition geminiService :: "jsstring option \<Rightarrow> js_error + GoogleGenAI" where
  "geminiService API_KEY =
     (case API_KEY of
        None \<Rightarrow> Inl (Error ''API_KEY environment variable not set'')
      | Some k \<Rightarrow>
          if k = [] then Inl (Error ''API_KEY environment variable not set'')
          else Inr \<lparr>apiKey = k\<rparr>)"

text \<open>
  The session handle, an object of the provider's library. \<^verbatim>\<open>ai.chats.create\<close> belongs
  to that library: it is a parameter, given the client and the model name, and it may
  throw. (The system instruction and the temperature are constants of the configuration
  that nothing below depends on.) \<^verbatim>\<open>createChatSession\<close> is only reachable through a
  loaded module, so it takes the module's client as an argument.
\<close>

record Chat =
  client :: GoogleGenAI
  model :: string

type_synonym chats_create = "GoogleGenAI \<Rightarrow> string \<Rightarrow> js_error + Chat"

definition createChatSession :: "chats_create \<Rightarrow> GoogleGenAI \<Rightarrow> js_error + Chat" where
  "createChatSession create ai = create ai ''gemini-2.5-flash''"

text \<open>
  What the provider answers to one \<^verbatim>\<open>sendMessageStream\<close>: the awaited promise rejects, or
  it resolves to an async iterator. The iterator is a finite sequence of text fragments
  that ends normally or by throwing. The fragment of a \<open>Chunk\<close> is the string that
  \<^verbatim>\<open>text += chunk.text\<close> appends.
\<close>

datatype stream = End | Chunk jsstring stream | Throw js_error

datatype response = Rejected js_error | Resolved stream

fun stream_of :: "jsstring list \<Rightarrow> stream" where
  "stream_of [] = End"
| "stream_of (f # fs) = Chunk f (stream_of fs)"

fun failing_after :: "jsstring list \<Rightarrow> js_error \<Rightarrow> stream" where
  "failing_after [] e = Throw e"
| "failing_after (f # fs) e = Chunk f (failing_after fs e)"


section \<open>App.tsx\<close>

subsection \<open>Component state\<close>

record app =
  chat :: "Chat option"
  messages :: "Message list"
  userInput :: jsstring
  isLoading :: bool

text \<open>The four \<^verbatim>\<open>useState\<close> initial values.\<close>

definition app_initial :: app where
  "app_initial = \<lparr>chat = None, messages = [], userInput = [], isLoading = True\<rparr>"

definition setChat :: "Chat option \<Rightarrow> app \<Rightarrow> app" where
  "setChat c s = s\<lparr>chat := c\<rparr>"

text \<open>
  \<^verbatim>\<open>setMessages\<close> in its updater form; \<^verbatim>\<open>setMessages(v)\<close> is \<open>setMessages (\<lambda>_. v)\<close>.
\<close>

definition setMessages :: "(Message list \<Rightarrow> Message list) \<Rightarrow> app \<Rightarrow> app" where
  "setMessages f s = s\<lparr>messages := f (messages s)\<rparr>"

definition setUserInput :: "jsstring \<Rightarrow> app \<Rightarrow> app" where
  "setUserInput v s = s\<lparr>userInput := v\<rparr>"

definition setIsLoading :: "bool \<Rightarrow> app \<Rightarrow> app" where
  "setIsLoading b s = s\<lparr>isLoading := b\<rparr>"

subsection \<open>Runs\<close>

text \<open>
  Every call of a state setter is an observable update. A run is the current state
  together with the log of the updates made so far, oldest first; each entry names the
  call site of the setter and holds the state that the call published.
\<close>

datatype site =
    Init_Begin | Init_SetChat | Init_Placeholder | Init_Chunk | Init_Error | Init_Finally
  | Send_User | Send_ClearInput | Send_Begin | Send_Placeholder | Send_Chunk | Send_Error
  | Send_Finally

type_synonym run = "app \<times> (site \<times> app) list"

definition emit :: "site \<Rightarrow> (app \<Rightarrow> app) \<Rightarrow> run \<Rightarrow> run" where
  "emit l f r = (f (fst r), snd r @ [(l, f (fst r))])"

text \<open>How a block of statements ends.\<close>

datatype completion = Returned | Thrown js_error

subsection \<open>initializeChat\<close>

text \<open>The \<^verbatim>\<open>for await\<close> loop of \<^verbatim>\<open>initializeChat\<close>; \<open>acc\<close> is the local \<^verbatim>\<open>text\<close>.\<close>

fun init_loop :: "Message \<Rightarrow> jsstring \<Rightarrow> stream \<Rightarrow> run \<Rightarrow> run \<times> completion" where
  "init_loop initialBotMessage acc End r = (r, Returned)"
| "init_loop initialBotMessage acc (Throw e) r = (r, Thrown e)"
| "init_loop initialBotMessage acc (Chunk c rest) r =
     init_loop initialBotMessage (acc @ c) rest
       (emit Init_Chunk (setMessages (\<lambda>_. [initialBotMessage\<lparr>text_msg := acc @ c\<rparr>])) r)"

definition init_error_message :: Message where
  "init_error_message =
     \<lparr>id_msg = js ''error-init'',
      text_msg = js ''Sorry, something went wrong while starting our session. Please refresh the page.'',
      sender_msg = BOT\<rparr>"

text \<open>
  \<open>created\<close> is the outcome of \<^verbatim>\<open>createChatSession()\<close>, \<open>now\<close> the reading of
  \<^verbatim>\<open>Date.now()\<close>, \<open>resp\<close> the provider's answer to the bootstrap turn.
\<close>

definition initializeChat :: "js_error + Chat \<Rightarrow> nat \<Rightarrow> response \<Rightarrow> app \<Rightarrow> run" where
  "initializeChat created now resp s =
     (let r1 = emit Init_Begin (setIsLoading True) (s, []);
          (r2, outcome) =
            (case created of
               Inl e \<Rightarrow> (r1, Thrown e)
             | Inr chatSession \<Rightarrow>
                 (let r = emit Init_SetChat (setChat (Some chatSession)) r1;
                      initialBotMessage =
                        \<lparr>id_msg = js ''bot-init-'' @ decimal now, text_msg = [], sender_msg = BOT\<rparr>;
                      r' = emit Init_Placeholder (setMessages (\<lambda>_. [initialBotMessage])) r
                  in case resp of
                       Rejected e \<Rightarrow> (r', Thrown e)
                     | Resolved st \<Rightarrow> init_loop initialBotMessage [] st r'));
          r3 = (case outcome of
                  Thrown e \<Rightarrow> emit Init_Error (setMessages (\<lambda>_. [init_error_message])) r2
                | Returned \<Rightarrow> r2)
      in emit Init_Finally (setIsLoading False) r3)"

subsection \<open>handleSendMessage\<close>

text \<open>The updater of line 124: the merge of the accumulated text into the placeholder.\<close>

definition merge_text :: "jsstring \<Rightarrow> jsstring \<Rightarrow> Message list \<Rightarrow> Message list" where
  "merge_text botMessageId acc prev =
     map (\<lambda>msg. if id_msg msg = botMessageId then msg\<lparr>text_msg := acc\<rparr> else msg) prev"

fun send_loop :: "jsstring \<Rightarrow> jsstring \<Rightarrow> stream \<Rightarrow> run \<Rightarrow> run \<times> completion" where
  "send_loop botMessageId acc End r = (r, Returned)"
| "send_loop botMessageId acc (Throw e) r = (r, Thrown e)"
| "send_loop botMessageId acc (Chunk c rest) r =
     send_loop botMessageId (acc @ c) rest
       (emit Send_Chunk (setMessages (merge_text botMessageId (acc @ c))) r)"

definition send_error_message :: "nat \<Rightarrow> Message" where
  "send_error_message now =
     \<lparr>id_msg = js ''error-'' @ decimal now,
      text_msg = js ''I seem to be having trouble connecting. Please try again in a moment.'',
      sender_msg = BOT\<rparr>"

text \<open>The guard of line 97; the handler returns at once where it fails.\<close>

definition may_send :: "app \<Rightarrow> bool" where
  "may_send s \<longleftrightarrow> \<not> (trim (userInput s) = [] \<or> isLoading s \<or> chat s = None)"

text \<open>
  \<open>now_user\<close>, \<open>now_bot\<close> and \<open>now_error\<close> are the readings of the three
  \<^verbatim>\<open>Date.now()\<close> calls in the order of the source, \<open>resp\<close> the provider's answer to
  \<^verbatim>\<open>chat.sendMessageStream({ message: userInput })\<close>. The state \<open>s\<close> is the one the
  handler's closure was rendered from.
\<close>

definition handleSendMessage :: "nat \<Rightarrow> response \<Rightarrow> nat \<Rightarrow> nat \<Rightarrow> app \<Rightarrow> run" where
  "handleSendMessage now_user resp now_bot now_error s =
     (if \<not> may_send s then (s, [])
      else
        let userMessage =
              \<lparr>id_msg = js ''user-'' @ decimal now_user, text_msg = userInput s, sender_msg = USER\<rparr>;
            r1 = emit Send_User (setMessages (\<lambda>prev. prev @ [userMessage])) (s, []);
            r2 = emit Send_ClearInput (setUserInput []) r1;
            r3 = emit Send_Begin (setIsLoading True) r2;
            (r4, outcome) =
              (case resp of
                 Rejected e \<Rightarrow> (r3, Thrown e)
               | Resolved st \<Rightarrow>
                   (let botMessageId = js ''bot-'' @ decimal now_bot;
                        r = emit Send_Placeholder
                              (setMessages (\<lambda>prev. prev @
                                 [\<lparr>id_msg = botMessageId, text_msg = [], sender_msg = BOT\<rparr>])) r3
                    in send_loop botMessageId [] st r));
            r5 = (case outcome of
                    Thrown e \<Rightarrow>
                      emit Send_Error (setMessages (\<lambda>prev. prev @ [send_error_message now_error])) r4
                  | Returned \<Rightarrow> r4)
        in emit Send_Finally (setIsLoading False) r5)"

subsection \<open>Rendering\<close>

text \<open>What the JSX of \<^verbatim>\<open>App\<close> computes from the state.\<close>

record view =
  bubbles :: "Message list"
  typingIndicator :: bool
  inputValue :: jsstring
  inputPlaceholder :: jsstring
  inputDisabled :: bool
  buttonDisabled :: bool

definition App :: "app \<Rightarrow> view" where
  "App s =
     \<lparr>bubbles = messages s,
      typingIndicator = (isLoading s \<and> length (messages s) > 0),
      inputValue = userInput s,
      inputPlaceholder = (if isLoading s then js ''Thinking...'' else js ''Type your message...''),
      inputDisabled = isLoading s,
      buttonDisabled = (isLoading s \<or> trim (userInput s) = [])\<rparr>"

section \<open>index.tsx\<close>

text \<open>
  The entry module. Its imports are evaluated first, so the body of the service module runs
  (and may throw) before anything else; then the root element is looked up, the component
  is mounted with the \<^verbatim>\<open>useState\<close> initial values, and the mount effect runs
  \<^verbatim>\<open>initializeChat\<close>, whose \<^verbatim>\<open>createChatSession()\<close> builds the session on the module's
  client. \<open>rootElement\<close> tells whether \<^verbatim>\<open>document.getElementById('root')\<close> finds
  an element.
\<close>

definition startup ::
  "jsstring option \<Rightarrow> bool \<Rightarrow> chats_create \<Rightarrow> nat \<Rightarrow> response \<Rightarrow> js_error + run" where
  "startup API_KEY rootElement create now resp =
     (case geminiService API_KEY of
        Inl e \<Rightarrow> Inl e
      | Inr ai \<Rightarrow>
          if \<not> rootElement then Inl (Error ''Could not find root element to mount to'')
          else Inr (initializeChat (createChatSession create ai) now resp app_initial))"


section \<open>components/ChatBubble.tsx\<close>

text \<open>
  \<^verbatim>\<open>text.replace(/\*\*(.*?)\*\*/g, '<strong class="font-semibold">$1</strong>')\<close>.
  \<open>bold_close\<close> is the lazy group followed by the closing pair of asterisks: it stops at
  the first pair, and fails at a line terminator, which \<^verbatim>\<open>.\<close> does not match. It
  returns the group and the text after the match.
\<close>

fun bold_close :: "jsstring \<Rightarrow> jsstring \<Rightarrow> (jsstring \<times> jsstring) option" where
  "bold_close grp (a # b # rest) =
     (if a = 0x2A \<and> b = 0x2A then Some (grp, rest)
      else if is_line_terminator a then None
      else bold_close (grp @ [a]) (b # rest))"
| "bold_close grp [a] = None"
| "bold_close grp [] = None"

text \<open>A match of the whole pattern at the start of \<open>s\<close>.\<close>

definition bold_match :: "jsstring \<Rightarrow> (jsstring \<times> jsstring) option" where
  "bold_match s =
     (case s of
        a # b # rest \<Rightarrow> if a = 0x2A \<and> b = 0x2A then bold_close [] rest else None
      | _ \<Rightarrow> None)"

definition strong_open :: jsstring where
  \<open>strong_open = js ''<strong class="font-semibold">''\<close>

definition strong_close :: jsstring where
  "strong_close = js ''</strong>''"

text \<open>
  The global replacement: the leftmost match is replaced and the scan goes on after it;
  a code unit at which no match starts is copied.
\<close>

function replace_bold :: "jsstring \<Rightarrow> jsstring" where
  "replace_bold [] = []"
| "replace_bold (c # cs) =
     (case bold_match (c # cs) of
        Some (grp, rest) \<Rightarrow> strong_open @ grp @ strong_close @ replace_bold rest
      | None \<Rightarrow> c # replace_bold cs)"
  by pat_completeness auto
termination
proof (relation "measure length")
  show "wf (measure length)" by simp
next
  fix c :: "16 word" and cs x grp rest
  assume m: "bold_match (c # cs) = Some x" and x: "(grp, rest) = x"
  have shorter: "bold_close g xs = Some (grp, rest) \<Longrightarrow> length rest < length xs" for g xs
    by (induction g xs rule: bold_close.induct) (auto split: if_splits)
  from m x have "length rest < length (c # cs)"
    by (auto simp: bold_match_def split: list.splits if_splits dest!: shorter)
  then show "(rest, c # cs) \<in> measure length" by simp
next
  fix c :: "16 word" and cs
  show "(cs, c # cs) \<in> measure length" by simp
qed

text \<open>\<^verbatim>\<open>.replace(/\n/g, '<br />')\<close>\<close>

definition replace_newlines :: "jsstring \<Rightarrow> jsstring" where
  "replace_newlines s = concat (map (\<lambda>c. if c = 0x0A then js ''<br />'' else [c]) s)"

definition formatText :: "jsstring \<Rightarrow> jsstring" where
  "formatText t = replace_newlines (replace_bold t)"

text \<open>
  The bubble hands the result to \<^verbatim>\<open>dangerouslySetInnerHTML\<close>: the string is parsed as
  HTML by the browser.
\<close>

definition ChatBubble :: "Message \<Rightarrow> jsstring" where
  "ChatBubble message = formatText (text_msg message)"


section \<open>Auxiliary notions for the statements\<close>

text \<open>The fragments a stream yields, and how it ends.\<close>

fun chunks :: "stream \<Rightarrow> jsstring list" where
  "chunks End = []"
| "chunks (Throw e) = []"
| "chunks (Chunk c rest) = c # chunks rest"

fun ending :: "stream \<Rightarrow> completion" where
  "ending End = Returned"
| "ending (Throw e) = Thrown e"
| "ending (Chunk c rest) = ending rest"

text \<open>The values the accumulator takes, one for each fragment.\<close>

fun scan :: "jsstring \<Rightarrow> jsstring list \<Rightarrow> jsstring list" where
  "scan acc [] = []"
| "scan acc (c # cs) = (acc @ c) # scan (acc @ c) cs"

text \<open>The successive prefix concatenations of a fragment list, the empty one first.\<close>

definition prefix_concats :: "jsstring list \<Rightarrow> jsstring list" where
  "prefix_concats fs = map (\<lambda>k. concat (take k fs)) [0..<Suc (length fs)]"

text \<open>The call sites of \<^verbatim>\<open>setMessages\<close>, and the message lists a log publishes.\<close>

fun sets_messages :: "site \<Rightarrow> bool" where
  "sets_messages Init_Placeholder = True"
| "sets_messages Init_Chunk = True"
| "sets_messages Init_Error = True"
| "sets_messages Send_User = True"
| "sets_messages Send_Placeholder = True"
| "sets_messages Send_Chunk = True"
| "sets_messages Send_Error = True"
| "sets_messages _ = False"

definition message_updates :: "(site \<times> app) list \<Rightarrow> Message list list" where
  "message_updates log = map (\<lambda>e. messages (snd e)) (filter (\<lambda>e. sets_messages (fst e)) log)"

text \<open>The state a log entry was published from: the one before the \<open>k\<close>-th update.\<close>

definition state_before :: "app \<Rightarrow> (site \<times> app) list \<Rightarrow> nat \<Rightarrow> app" where
  "state_before s log k = (if k = 0 then s else snd (log ! (k - 1)))"

text \<open>
  What one code unit of the input may become in the formatted text: an asterisk is
  copied, dropped, or replaced by one of the two tags; a line feed becomes the break tag;
  every other code unit is copied. \<open>bold_ok\<close> is the same after the first replacement
  only.
\<close>

definition image_ok :: "16 word \<Rightarrow> jsstring \<Rightarrow> bool" where
  "image_ok c img =
     (if c = 0x2A then img = [0x2A] \<or> img = strong_open \<or> img = strong_close \<or> img = []
      else if c = 0x0A then img = js ''<br />''
      else img = [c])"

definition bold_ok :: "16 word \<Rightarrow> jsstring \<Rightarrow> bool" where
  "bold_ok c img =
     (if c = 0x2A then img = [0x2A] \<or> img = strong_open \<or> img = strong_close \<or> img = []
      else img = [c])"

text \<open>A turn fails where the send is rejected or the stream throws.\<close>

definition fails :: "response \<Rightarrow> bool" where
  "fails resp = (case resp of Rejected e \<Rightarrow> True | Resolved st \<Rightarrow> ending st \<noteq> Returned)"

text \<open>Initialization fails where the session cannot be created or the bootstrap turn fails.\<close>

definition init_fails :: "js_error + Chat \<Rightarrow> response \<Rightarrow> bool" where
  "init_fails created resp = (case created of Inl e \<Rightarrow> True | Inr c \<Rightarrow> fails resp)"

text \<open>Concrete inputs for the instances below.\<close>

definition demo_create :: chats_create where
  "demo_create ai name = Inr \<lparr>client = ai, model = name\<rparr>"

definition demo_chat :: Chat where
  "demo_chat = \<lparr>client = \<lparr>apiKey = js ''secret''\<rparr>, model = ''gemini-2.5-flash''\<rparr>"

definition demo_ready :: app where
  "demo_ready =
     \<lparr>chat = Some demo_chat,
      messages = [\<lparr>id_msg = js ''bot-init-1000'', text_msg = js ''Welcome!'', sender_msg = BOT\<rparr>],
      userInput = js ''I love drawing'',
      isLoading = False\<rparr>"

definition demo_fragments :: "jsstring list" where
  "demo_fragments = [js ''Hello'', js '' there'', js ''!'']"

definition demo_broken :: response where
  "demo_broken = Resolved (failing_after demo_fragments (Error ''network''))"


section \<open>Lemmas on the loops\<close>

lemma scan_prefix: "scan acc fs = map (\<lambda>k. acc @ concat (take (Suc k) fs)) [0..<length fs]"
proof (induction fs arbitrary: acc)
  case Nil
  then show ?case by simp
next
  case (Cons c cs)
  have "[0..<length (c # cs)] = 0 # map Suc [0..<length cs]"
    by (simp add: upt_conv_Cons map_Suc_upt del: upt_Suc)
  then show ?case using Cons by (simp add: comp_def del: upt_Suc)
qed

lemma prefix_concats_scan: "prefix_concats fs = [] # scan [] fs"
  by (simp add: prefix_concats_def scan_prefix upt_conv_Cons map_Suc_upt[symmetric] comp_def
      del: upt_Suc)

lemma merge_text_twice: "merge_text b t (merge_text b t' ms) = merge_text b t ms"
  by (induction ms) (auto simp: merge_text_def)

lemma length_merge_text: "length (merge_text b t ms) = length ms"
  by (simp add: merge_text_def)

text \<open>
  The loops in closed form: one update for each fragment, each publishing the text
  accumulated so far; the loop ends as the stream does.
\<close>

lemma init_loop_run:
  "init_loop m acc st (s, tr) =
     ((if chunks st = [] then s else s\<lparr>messages := [m\<lparr>text_msg := acc @ concat (chunks st)\<rparr>]\<rparr>,
       tr @ map (\<lambda>t. (Init_Chunk, s\<lparr>messages := [m\<lparr>text_msg := t\<rparr>]\<rparr>)) (scan acc (chunks st))),
      ending st)"
  by (induction st arbitrary: acc s tr) (simp_all add: emit_def setMessages_def)

lemma send_loop_run:
  "send_loop b acc st (s, tr) =
     ((if chunks st = [] then s
       else s\<lparr>messages := merge_text b (acc @ concat (chunks st)) (messages s)\<rparr>,
       tr @ map (\<lambda>t. (Send_Chunk, s\<lparr>messages := merge_text b t (messages s)\<rparr>))
              (scan acc (chunks st))),
      ending st)"
  by (induction st arbitrary: acc s tr)
     (simp_all add: emit_def setMessages_def merge_text_twice)

lemma chunks_stream_of: "chunks (stream_of fs) = fs"
  by (induction fs) simp_all

lemma ending_stream_of: "ending (stream_of fs) = Returned"
  by (induction fs) simp_all

lemma chunks_failing_after: "chunks (failing_after fs e) = fs"
  by (induction fs) simp_all

lemma ending_failing_after: "ending (failing_after fs e) = Thrown e"
  by (induction fs) simp_all

lemmas stream_simps =
  chunks_stream_of ending_stream_of chunks_failing_after ending_failing_after

lemmas setter_defs = emit_def setChat_def setMessages_def setUserInput_def setIsLoading_def

lemma scan_eq_Nil: "scan acc cs = [] \<longleftrightarrow> cs = []"
  by (cases cs) simp_all

lemma length_scan: "length (scan acc cs) = length cs"
  by (simp add: scan_prefix)

lemma last_scan: "cs \<noteq> [] \<Longrightarrow> last (scan acc cs) = acc @ concat cs"
  by (induction cs arbitrary: acc) (simp_all add: scan_eq_Nil)

lemma nth_scan: "j < length cs \<Longrightarrow> scan acc cs ! j = acc @ concat (take (Suc j) cs)"
  by (simp add: scan_prefix)

lemma merge_text_nth:
  "i < length ms \<Longrightarrow>
     merge_text b t ms ! i = (if id_msg (ms ! i) = b then (ms ! i)\<lparr>text_msg := t\<rparr> else ms ! i)"
  by (simp add: merge_text_def)

lemma all_dropWhile: "(\<forall>x \<in> set (dropWhile P t). P x) \<longleftrightarrow> (\<forall>x \<in> set t. P x)"
  by (induction t) auto

lemma trim_empty_iff: "trim t = [] \<longleftrightarrow> (\<forall>c \<in> set t. trim_char c)"
  by (simp add: trim_def dropWhile_eq_Nil_conv all_dropWhile)

lemma user_id_not_bot_id: "js ''user-'' @ decimal n \<noteq> js ''bot-'' @ decimal m"
  by (simp add: js_def)

lemma merge_text_append: "merge_text b t (xs @ ys) = merge_text b t xs @ merge_text b t ys"
  by (simp add: merge_text_def)

lemma filter_sender_merge:
  "length (filter (\<lambda>m. sender_msg m = x) (merge_text b t ms))
     = length (filter (\<lambda>m. sender_msg m = x) ms)"
  by (induction ms) (simp_all add: merge_text_def)

lemma init_pending:
  "e \<in> set (butlast (snd (initializeChat created now resp s))) \<Longrightarrow> isLoading (snd e)"
  by (auto simp: initializeChat_def Let_def setter_defs init_loop_run butlast_append
      split: sum.splits response.splits completion.splits if_splits)

lemma init_not_loading: "\<not> isLoading (fst (initializeChat created now resp s))"
  by (simp add: initializeChat_def Let_def setter_defs split: prod.splits)

lemma init_chat: "chat (fst (initializeChat (Inr c) now resp s)) = Some c"
  by (simp add: initializeChat_def Let_def setter_defs init_loop_run
      split: response.splits completion.splits)

lemma init_no_chat: "chat (fst (initializeChat (Inl e) now resp s)) = chat s"
  by (simp add: initializeChat_def Let_def setter_defs)

text \<open>The log of a turn whose send was accepted: four updates, the merges, the end.\<close>

lemma send_log_shape:
  assumes "may_send s"
  shows "\<exists>P Q s4.
     snd (handleSendMessage now_user (Resolved st) now_bot now_error s)
       = P @ map (\<lambda>t. (Send_Chunk,
            s4\<lparr>messages := merge_text (js ''bot-'' @ decimal now_bot) t (messages s4)\<rparr>))
              (scan [] (chunks st)) @ Q
     \<and> length P = 4 \<and> snd (last P) = s4
     \<and> (\<forall>e \<in> set P. fst e \<noteq> Send_Chunk) \<and> (\<forall>e \<in> set Q. fst e \<noteq> Send_Chunk)"
proof -
  let ?u = "\<lparr>id_msg = js ''user-'' @ decimal now_user, text_msg = userInput s, sender_msg = USER\<rparr>"
  let ?p = "\<lparr>id_msg = js ''bot-'' @ decimal now_bot, text_msg = [], sender_msg = BOT\<rparr>"
  let ?s1 = "s\<lparr>messages := messages s @ [?u]\<rparr>"
  let ?s2 = "?s1\<lparr>userInput := []\<rparr>"
  let ?s3 = "?s2\<lparr>isLoading := True\<rparr>"
  let ?s4 = "?s3\<lparr>messages := messages ?s3 @ [?p]\<rparr>"
  let ?P = "[(Send_User, ?s1), (Send_ClearInput, ?s2), (Send_Begin, ?s3), (Send_Placeholder, ?s4)]"
  let ?log = "snd (handleSendMessage now_user (Resolved st) now_bot now_error s)"
  let ?mid = "map (\<lambda>t. (Send_Chunk,
            ?s4\<lparr>messages := merge_text (js ''bot-'' @ decimal now_bot) t (messages ?s4)\<rparr>))
              (scan [] (chunks st))"
  have "\<exists>Q. ?log = ?P @ ?mid @ Q \<and> (\<forall>e \<in> set Q. fst e \<noteq> Send_Chunk)"
    using assms
    by (cases "ending st")
       (simp_all add: handleSendMessage_def Let_def setter_defs send_loop_run)
  then obtain Q where "?log = ?P @ ?mid @ Q" "\<forall>e \<in> set Q. fst e \<noteq> Send_Chunk"
    by blast
  then show ?thesis
    by (intro exI [of _ ?P] exI [of _ Q] exI [of _ ?s4]) simp
qed

lemma chunk_position:
  assumes "log = P @ map (\<lambda>t. (Send_Chunk, g t)) xs @ Q"
    and "\<forall>e \<in> set P. fst e \<noteq> Send_Chunk" and "\<forall>e \<in> set Q. fst e \<noteq> Send_Chunk"
    and "k < length log" and "fst (log ! k) = Send_Chunk"
  shows "length P \<le> k \<and> k < length P + length xs"
proof -
  have "\<not> k < length P"
  proof
    assume "k < length P"
    then have "log ! k \<in> set P" using assms(1) by (simp add: nth_append)
    with assms(2,5) show False by blast
  qed
  moreover have "k < length P + length xs"
  proof (rule ccontr)
    assume far: "\<not> k < length P + length xs"
    with \<open>\<not> k < length P\<close> have rel: "\<not> k - length P < length xs" by arith
    have "log ! k = (map (\<lambda>t. (Send_Chunk, g t)) xs @ Q) ! (k - length P)"
      using assms(1) \<open>\<not> k < length P\<close> by (simp add: nth_append)
    also have "\<dots> = Q ! (k - length P - length xs)"
      using rel by (simp add: nth_append)
    finally have "log ! k = Q ! (k - length P - length xs)" .
    moreover have "k - length P - length xs < length Q"
      using assms(1,4) far by simp
    ultimately have "log ! k \<in> set Q" by simp
    with assms(3,5) show False by blast
  qed
  ultimately show ?thesis by simp
qed

text \<open>The concrete inputs.\<close>

lemmas demo_defs = demo_ready_def demo_chat_def demo_fragments_def demo_broken_def app_initial_def
  js_def

lemmas run_defs = handleSendMessage_def initializeChat_def Let_def setter_defs merge_text_def
  decimal.simps send_error_message_def init_error_message_def

lemma demo_ready_may_send: "may_send demo_ready"
  by (simp add: may_send_def demo_ready_def trim_def trim_char_def is_white_space_def
      is_line_terminator_def js_def)

lemma demo_broken_fails: "fails demo_broken"
  by (simp add: fails_def demo_broken_def stream_simps)


section \<open>Lemmas on the formatting\<close>

lemma bold_match_none: "hd s \<noteq> 0x2A \<Longrightarrow> bold_match s = None"
  by (cases s) (auto simp: bold_match_def split: list.splits)

lemma replace_bold_plain: "0x2A \<notin> set t \<Longrightarrow> replace_bold t = t"
  by (induction t) (simp_all add: bold_match_none)

lemma replace_newlines_plain: "0x0A \<notin> set t \<Longrightarrow> replace_newlines t = t"
  by (induction t) (simp_all add: replace_newlines_def)

lemma bold_close_keeps:
  "bold_close g xs = Some (grp, rest) \<Longrightarrow> set g \<union> set xs \<subseteq> insert 0x2A (set grp \<union> set rest)"
  by (induction g xs rule: bold_close.induct) (auto split: if_splits)

lemma bold_match_keeps:
  "bold_match s = Some (grp, rest) \<Longrightarrow> set s \<subseteq> insert 0x2A (set grp \<union> set rest)"
  by (auto simp: bold_match_def split: list.splits if_splits dest!: bold_close_keeps)

lemma replace_bold_keeps: "set t \<subseteq> insert 0x2A (set (replace_bold t))"
proof (induction t rule: replace_bold.induct)
  case 1
  then show ?case by simp
next
  case (2 c cs)
  show ?case
  proof (cases "bold_match (c # cs)")
    case None
    with 2 show ?thesis by auto
  next
    case (Some p)
    obtain grp rest where p: "p = (grp, rest)" by (cases p)
    from bold_match_keeps [of "c # cs" grp rest] Some p
    have "set (c # cs) \<subseteq> insert 0x2A (set grp \<union> set rest)" by simp
    moreover have "set rest \<subseteq> insert 0x2A (set (replace_bold rest))"
      using 2(2) Some p by blast
    ultimately show ?thesis using Some p by auto
  qed
qed

lemma replace_newlines_keeps: "c \<in> set s \<Longrightarrow> c \<noteq> 0x0A \<Longrightarrow> c \<in> set (replace_newlines s)"
  by (induction s) (auto simp: replace_newlines_def)

lemma bold_close_split:
  "bold_close g xs = Some (grp, rest) \<Longrightarrow> \<exists>mid. xs = mid @ [0x2A, 0x2A] @ rest \<and> grp = g @ mid"
proof (induction g xs rule: bold_close.induct)
  case (1 grp' a b rest')
  show ?case
  proof (cases "a = 0x2A \<and> b = 0x2A")
    case True
    with 1(2) show ?thesis by simp
  next
    case False
    with 1(2) have nl: "\<not> is_line_terminator a"
      and rec: "bold_close (grp' @ [a]) (b # rest') = Some (grp, rest)"
      by (auto split: if_splits)
    from 1(1) [OF False nl rec] obtain mid
      where "b # rest' = mid @ [0x2A, 0x2A] @ rest" "grp = (grp' @ [a]) @ mid" by blast
    then show ?thesis by (intro exI [of _ "a # mid"]) simp
  qed
qed simp_all

lemma bold_match_split:
  "bold_match s = Some (grp, rest) \<Longrightarrow> s = [0x2A, 0x2A] @ grp @ [0x2A, 0x2A] @ rest"
  by (auto simp: bold_match_def split: list.splits if_splits dest!: bold_close_split)

lemma bold_ok_self: "bold_ok c [c]"
  by (simp add: bold_ok_def)

lemma bold_ok_star: "bold_ok 0x2A strong_open" "bold_ok 0x2A strong_close" "bold_ok 0x2A []"
  by (simp_all add: bold_ok_def)

lemma bold_ok_copy: "list_all2 bold_ok xs (map (\<lambda>c. [c]) xs)"
  by (induction xs) (simp_all add: bold_ok_self)

lemma replace_bold_images: "\<exists>imgs. replace_bold t = concat imgs \<and> list_all2 bold_ok t imgs"
proof (induction t rule: replace_bold.induct)
  case 1
  show ?case by simp
next
  case (2 c cs)
  show ?case
  proof (cases "bold_match (c # cs)")
    case None
    with 2(1) obtain imgs where "replace_bold cs = concat imgs" "list_all2 bold_ok cs imgs"
      by blast
    with None show ?thesis
      by (intro exI [of _ "[c] # imgs"]) (simp add: bold_ok_self)
  next
    case (Some p)
    obtain grp rest where p: "p = (grp, rest)" by (cases p)
    from 2(2) Some p obtain imgs
      where imgs: "replace_bold rest = concat imgs" "list_all2 bold_ok rest imgs" by blast
    from bold_match_split Some p
    have split: "c # cs = [0x2A, 0x2A] @ grp @ [0x2A, 0x2A] @ rest" by simp
    let ?imgs = "[strong_open, []] @ map (\<lambda>c. [c]) grp @ [strong_close, []] @ imgs"
    have "list_all2 bold_ok ([0x2A, 0x2A] @ grp @ [0x2A, 0x2A] @ rest) ?imgs"
      by (intro list_all2_appendI bold_ok_copy imgs(2)) (simp_all add: bold_ok_star)
    moreover have "replace_bold (c # cs) = concat ?imgs"
      using Some p imgs(1) by (simp add: concat_map_singleton)
    ultimately show ?thesis unfolding split [symmetric] by blast
  qed
qed

lemma replace_newlines_append:
  "replace_newlines (xs @ ys) = replace_newlines xs @ replace_newlines ys"
  by (simp add: replace_newlines_def)

lemma replace_newlines_concat:
  "replace_newlines (concat xss) = concat (map replace_newlines xss)"
  by (induction xss) (simp_all add: replace_newlines_append, simp add: replace_newlines_def)

lemma replace_newlines_tags:
  "replace_newlines strong_open = strong_open" "replace_newlines strong_close = strong_close"
  by (simp_all add: replace_newlines_def strong_open_def strong_close_def js_def)

lemma image_ok_newlines: "bold_ok c img \<Longrightarrow> image_ok c (replace_newlines img)"
  by (auto simp: bold_ok_def image_ok_def replace_newlines_tags split: if_splits)
     (simp_all add: replace_newlines_def)

lemma formatText_images: "\<exists>imgs. formatText t = concat imgs \<and> list_all2 image_ok t imgs"
proof -
  from replace_bold_images [of t] obtain imgs
    where "replace_bold t = concat imgs" "list_all2 bold_ok t imgs" by blast
  then have "formatText t = concat (map replace_newlines imgs)"
    and "list_all2 image_ok t (map replace_newlines imgs)"
    by (simp_all add: formatText_def replace_newlines_concat list_all2_map2
        list_all2_mono [OF _ image_ok_newlines])
  then show ?thesis by blast
qed

lemma image_ok_other: "image_ok c img \<Longrightarrow> c \<noteq> 0x2A \<Longrightarrow> c \<noteq> 0x0A \<Longrightarrow> img = [c]"
  by (simp add: image_ok_def)

lemma image_ok_plain:
  "list_all2 image_ok u imgs \<Longrightarrow> 0x2A \<notin> set u \<Longrightarrow> 0x0A \<notin> set u \<Longrightarrow> concat imgs = u"
  by (induction u imgs rule: list_all2_induct) (auto dest: image_ok_other)

lemma formatText_contains:
  assumes "0x2A \<notin> set u" "0x0A \<notin> set u"
  shows "\<exists>p q. formatText (a @ u @ b) = p @ u @ q"
proof -
  from formatText_images [of "a @ u @ b"] obtain imgs
    where out: "formatText (a @ u @ b) = concat imgs" and ok: "list_all2 image_ok (a @ u @ b) imgs"
    by blast
  from ok obtain ia r where r: "imgs = ia @ r" "list_all2 image_ok a ia" "list_all2 image_ok (u @ b) r"
    by (auto simp: list_all2_append1)
  from r(3) obtain iu ib where u: "r = iu @ ib" "list_all2 image_ok u iu"
    by (auto simp: list_all2_append1)
  from image_ok_plain [OF u(2) assms] have "concat iu = u" .
  with out r(1) u(1) have "formatText (a @ u @ b) = concat ia @ u @ concat ib" by simp
  then show ?thesis by blast
qed

lemma replace_bold_prefix: "0x2A \<notin> set a \<Longrightarrow> replace_bold (a @ s) = a @ replace_bold s"
  by (induction a) (simp_all add: bold_match_none)

lemma bold_close_found:
  "0x2A \<notin> set g \<Longrightarrow> \<forall>c \<in> set g. \<not> is_line_terminator c \<Longrightarrow>
     bold_close acc (g @ [0x2A, 0x2A] @ b) = Some (acc @ g, b)"
proof (induction g arbitrary: acc)
  case Nil
  then show ?case by simp
next
  case (Cons x g)
  obtain y ys where ys: "g @ [0x2A, 0x2A] @ b = y # ys" by (cases g) simp_all
  from Cons.prems have x: "x \<noteq> 0x2A" "\<not> is_line_terminator x" by simp_all
  have "bold_close acc (x # y # ys) = bold_close (acc @ [x]) (y # ys)"
    using x by simp
  then have "bold_close acc ((x # g) @ [0x2A, 0x2A] @ b)
      = bold_close (acc @ [x]) (g @ [0x2A, 0x2A] @ b)"
    unfolding ys [symmetric] append_Cons .
  also have "\<dots> = Some ((acc @ [x]) @ g, b)"
    using Cons.prems by (intro Cons.IH) simp_all
  finally show ?case by simp
qed

lemma bold_match_found:
  "0x2A \<notin> set g \<Longrightarrow> \<forall>c \<in> set g. \<not> is_line_terminator c \<Longrightarrow>
     bold_match ([0x2A, 0x2A] @ g @ [0x2A, 0x2A] @ b) = Some (g, b)"
  using bold_close_found [of g "[]" b] by (simp add: bold_match_def)

lemma formatText_bold_span:
  assumes "0x2A \<notin> set a" "0x2A \<notin> set g" "\<forall>c \<in> set g. \<not> is_line_terminator c"
  shows "formatText (a @ [0x2A, 0x2A] @ g @ [0x2A, 0x2A] @ b)
     = formatText a @ strong_open @ g @ strong_close @ formatText b"
proof -
  have "0x0A \<notin> set g" using assms(3) by (auto simp: is_line_terminator_def)
  then have g: "replace_newlines g = g" by (rule replace_newlines_plain)
  have "replace_bold ([0x2A, 0x2A] @ g @ [0x2A, 0x2A] @ b)
      = strong_open @ g @ strong_close @ replace_bold b"
    using bold_match_found [OF assms(2,3), of b] by simp
  then show ?thesis
    using assms(1)
    by (simp add: formatText_def replace_bold_prefix replace_bold_plain replace_newlines_append
        replace_newlines_tags g)
qed

lemma formatText_example:
  "formatText (js ''**Data Scientist**'' @ [0x0A] @ js ''Great fit'')
     = strong_open @ js ''Data Scientist'' @ strong_close @ js ''<br />Great fit''"
  by (simp add: js_def formatText_def replace_newlines_def bold_match_def is_line_terminator_def
      strong_open_def strong_close_def)


section \<open>The streamed reply\<close>

text \<open>
  Claim C1. A successful stream yields the fragments \<open>fs\<close> and ends normally. In
  \<^verbatim>\<open>initializeChat\<close> the message lists published by \<^verbatim>\<open>setMessages\<close> are, in order, the
  one-element lists holding the placeholder with the successive prefix concatenations of
  \<open>fs\<close> as its text: the empty text first, then one update for each fragment; the final
  text is the concatenation of all fragments. In \<^verbatim>\<open>handleSendMessage\<close>, after the update
  that appends the user's message, the published lists all have the placeholder as last
  element, at the same position, and its text runs through the same prefix concatenations
  and ends as the concatenation of all fragments.
\<close>

theorem streamed_reply_states:
  "message_updates (snd (initializeChat (Inr c) now (Resolved (stream_of fs)) s))
     = map (\<lambda>t. [\<lparr>id_msg = js ''bot-init-'' @ decimal now, text_msg = t, sender_msg = BOT\<rparr>])
         (prefix_concats fs)
   \<and> messages (fst (initializeChat (Inr c) now (Resolved (stream_of fs)) s))
     = [\<lparr>id_msg = js ''bot-init-'' @ decimal now, text_msg = concat fs, sender_msg = BOT\<rparr>]
   \<and> (may_send s \<longrightarrow>
        map last (tl (message_updates
            (snd (handleSendMessage now_user (Resolved (stream_of fs)) now_bot now_error s))))
          = map (\<lambda>t. \<lparr>id_msg = js ''bot-'' @ decimal now_bot, text_msg = t, sender_msg = BOT\<rparr>)
              (prefix_concats fs)
        \<and> map length (tl (message_updates
            (snd (handleSendMessage now_user (Resolved (stream_of fs)) now_bot now_error s))))
          = replicate (Suc (length fs)) (length (messages s) + 2)
        \<and> last (messages
            (fst (handleSendMessage now_user (Resolved (stream_of fs)) now_bot now_error s)))
          = \<lparr>id_msg = js ''bot-'' @ decimal now_bot, text_msg = concat fs, sender_msg = BOT\<rparr>)"
proof (intro conjI impI)
  show "message_updates (snd (initializeChat (Inr c) now (Resolved (stream_of fs)) s))
     = map (\<lambda>t. [\<lparr>id_msg = js ''bot-init-'' @ decimal now, text_msg = t, sender_msg = BOT\<rparr>])
         (prefix_concats fs)"
    by (simp add: initializeChat_def Let_def setter_defs init_loop_run stream_simps
        message_updates_def prefix_concats_scan comp_def filter_map)
  show "messages (fst (initializeChat (Inr c) now (Resolved (stream_of fs)) s))
     = [\<lparr>id_msg = js ''bot-init-'' @ decimal now, text_msg = concat fs, sender_msg = BOT\<rparr>]"
    by (simp add: initializeChat_def Let_def setter_defs init_loop_run stream_simps)
next
  assume ok: "may_send s"
  let ?run = "handleSendMessage now_user (Resolved (stream_of fs)) now_bot now_error s"
  show "map last (tl (message_updates (snd ?run)))
          = map (\<lambda>t. \<lparr>id_msg = js ''bot-'' @ decimal now_bot, text_msg = t, sender_msg = BOT\<rparr>)
              (prefix_concats fs)"
    using ok
    by (simp add: handleSendMessage_def Let_def setter_defs send_loop_run stream_simps
        message_updates_def prefix_concats_scan comp_def filter_map merge_text_def)
  show "map length (tl (message_updates (snd ?run)))
          = replicate (Suc (length fs)) (length (messages s) + 2)"
    using ok
    by (simp add: handleSendMessage_def Let_def setter_defs send_loop_run stream_simps
        message_updates_def comp_def filter_map length_merge_text scan_prefix
        map_replicate_const)
  show "last (messages (fst ?run))
          = \<lparr>id_msg = js ''bot-'' @ decimal now_bot, text_msg = concat fs, sender_msg = BOT\<rparr>"
    using ok
    by (simp add: handleSendMessage_def Let_def setter_defs send_loop_run stream_simps
        merge_text_def)
qed

theorem streamed_reply_states_witness:
  "may_send demo_ready
   \<and> map (\<lambda>m. text_msg m) (map last (tl (message_updates
        (snd (handleSendMessage 2000 (Resolved (stream_of demo_fragments)) 2001 2002 demo_ready)))))
     = [js '''', js ''Hello'', js ''Hello there'', js ''Hello there!'']
   \<and> map (\<lambda>ms. text_msg (last ms)) (message_updates
        (snd (initializeChat (Inr demo_chat) 1000 (Resolved (stream_of demo_fragments)) app_initial)))
     = [js '''', js ''Hello'', js ''Hello there'', js ''Hello there!'']"
  using streamed_reply_states [of demo_chat 1000 demo_fragments app_initial 2000 2001 2002]
    streamed_reply_states [of demo_chat 1000 demo_fragments demo_ready 2000 2001 2002]
    demo_ready_may_send
  by (simp add: prefix_concats_def demo_fragments_def js_def upt_rec)


section \<open>Formatting of the message text\<close>

text \<open>
  Claim C2 as stated fails: a text holding a literal \<^verbatim>\<open><script>\<close> tag is returned
  unchanged, and the bubble hands it to \<^verbatim>\<open>dangerouslySetInnerHTML\<close> as markup.
\<close>

theorem formatText_passes_markup:
  "formatText (js ''<script>alert(1)</script>'') = js ''<script>alert(1)</script>''
   \<and> ChatBubble \<lparr>id_msg = js ''bot-2001'', text_msg = js ''<script>alert(1)</script>'',
                  sender_msg = BOT\<rparr> = js ''<script>alert(1)</script>''"
  by (simp add: ChatBubble_def formatText_def replace_newlines_def bold_match_def js_def)

text \<open>
  Claim C2, as amended. \<^verbatim>\<open>formatText\<close> escapes no character; it applies the bold and the
  line-break replacement and nothing else. For every text, the result is the
  concatenation, in order, of one piece for each code unit of the input: the code unit
  itself, unless it is a line feed, which becomes the break tag, or an asterisk, which is
  copied, dropped or replaced by one of the two tags. Hence a stretch of the input with
  no asterisk and no line feed, such as a \<^verbatim>\<open><script>\<close> tag, stands unchanged in the result,
  and a text with neither is returned as it is. A span between two pairs of asterisks,
  with no asterisk and no line terminator inside and no asterisk before it, becomes that
  span between the two tags.
\<close>

theorem formatText_no_escaping:
  "(\<exists>imgs. formatText t = concat imgs \<and> list_all2 image_ok t imgs)
   \<and> (0x2A \<notin> set u \<and> 0x0A \<notin> set u \<longrightarrow> (\<exists>p q. formatText (a @ u @ b) = p @ u @ q))
   \<and> (0x2A \<notin> set t \<and> 0x0A \<notin> set t \<longrightarrow> formatText t = t)
   \<and> (\<forall>c \<in> set t. c \<noteq> 0x2A \<and> c \<noteq> 0x0A \<longrightarrow> c \<in> set (formatText t))
   \<and> (0x2A \<notin> set a \<and> 0x2A \<notin> set g \<and> (\<forall>c \<in> set g. \<not> is_line_terminator c) \<longrightarrow>
        formatText (a @ [0x2A, 0x2A] @ g @ [0x2A, 0x2A] @ b)
          = formatText a @ strong_open @ g @ strong_close @ formatText b)"
proof (intro conjI impI ballI)
  show "\<exists>imgs. formatText t = concat imgs \<and> list_all2 image_ok t imgs"
    by (rule formatText_images)
next
  assume "0x2A \<notin> set u \<and> 0x0A \<notin> set u"
  then show "\<exists>p q. formatText (a @ u @ b) = p @ u @ q"
    by (simp add: formatText_contains)
next
  assume "0x2A \<notin> set t \<and> 0x0A \<notin> set t"
  then show "formatText t = t"
    by (simp add: formatText_def replace_bold_plain replace_newlines_plain)
next
  fix c assume "c \<in> set t" "c \<noteq> 0x2A \<and> c \<noteq> 0x0A"
  with replace_bold_keeps [of t] have "c \<in> set (replace_bold t)" by auto
  with \<open>c \<noteq> 0x2A \<and> c \<noteq> 0x0A\<close> show "c \<in> set (formatText t)"
    by (simp add: formatText_def replace_newlines_keeps)
next
  assume "0x2A \<notin> set a \<and> 0x2A \<notin> set g \<and> (\<forall>c \<in> set g. \<not> is_line_terminator c)"
  then show "formatText (a @ [0x2A, 0x2A] @ g @ [0x2A, 0x2A] @ b)
      = formatText a @ strong_open @ g @ strong_close @ formatText b"
    using formatText_bold_span [of a g b] by blast
qed

theorem formatText_no_escaping_witness:
  \<open>formatText (js ''Hi'' @ [0x0A] @ js ''<img src=x onerror=alert(1)>'')
     = js ''Hi<br /><img src=x onerror=alert(1)>''
   \<and> (\<exists>p q. formatText (js ''Hi'' @ [0x0A] @ js ''<img src=x onerror=alert(1)>'' @ [])
          = p @ js ''<img src=x onerror=alert(1)>'' @ q)
   \<and> formatText (js ''<img src=x onerror=alert(1)>'') = js ''<img src=x onerror=alert(1)>''
   \<and> 0x3C \<in> set (formatText (js ''**<b>bold</b>**''))
   \<and> formatText ([] @ [0x2A, 0x2A] @ js ''<b>bold</b>'' @ [0x2A, 0x2A] @ [])
       = formatText [] @ strong_open @ js ''<b>bold</b>'' @ strong_close @ formatText []\<close>
proof -
  have plain: "0x2A \<notin> set (js ''<img src=x onerror=alert(1)>'')
      \<and> 0x0A \<notin> set (js ''<img src=x onerror=alert(1)>'')"
    by (simp add: js_def)
  have span: \<open>0x2A \<notin> set ([] :: jsstring) \<and> 0x2A \<notin> set (js ''<b>bold</b>'')
      \<and> (\<forall>c \<in> set (js ''<b>bold</b>''). \<not> is_line_terminator c)\<close>
    by (simp add: js_def is_line_terminator_def)
  have mem: "0x3C \<in> set (js ''**<b>bold</b>**'')" by (simp add: js_def)
  note inst = formatText_no_escaping [of "js ''**<b>bold</b>**''" "js ''<img src=x onerror=alert(1)>''"
      "js ''Hi'' @ [0x0A]" "[]" "js ''<b>bold</b>''"]
  have "formatText (js ''Hi'' @ [0x0A] @ js ''<img src=x onerror=alert(1)>'')
      = js ''Hi<br /><img src=x onerror=alert(1)>''"
    by (simp add: js_def formatText_def replace_newlines_def bold_match_def)
  moreover have "\<exists>p q. formatText (js ''Hi'' @ [0x0A] @ js ''<img src=x onerror=alert(1)>'' @ [])
      = p @ js ''<img src=x onerror=alert(1)>'' @ q"
    using inst plain by simp
  moreover have "formatText (js ''<img src=x onerror=alert(1)>'') = js ''<img src=x onerror=alert(1)>''"
    using formatText_no_escaping [of "js ''<img src=x onerror=alert(1)>''"] plain by blast
  moreover have "0x3C \<in> set (formatText (js ''**<b>bold</b>**''))"
    using inst mem by simp
  moreover have "formatText ([] @ [0x2A, 0x2A] @ js ''<b>bold</b>'' @ [0x2A, 0x2A] @ [])
      = formatText [] @ strong_open @ js ''<b>bold</b>'' @ strong_close @ formatText []"
    using formatText_no_escaping [of _ _ "[]" "[]" "js ''<b>bold</b>''"] span by blast
  ultimately show ?thesis by blast
qed

section \<open>Recovery from failures\<close>

text \<open>
  Claim C3. Where initialization fails (the session cannot be created, the bootstrap send
  is rejected, or its stream throws), the final message list is the single error message
  of \<^verbatim>\<open>initializeChat\<close>, whatever had been published before. Where a user turn fails,
  the update made by the \<^verbatim>\<open>catch\<close> block, the last but one of the log, publishes the
  list of the update before it with one error message appended, this is the final list,
  and it is the only such update. Both error messages are BOT messages.
\<close>

theorem error_recovery_asymmetric:
  "(init_fails created resp \<longrightarrow>
      messages (fst (initializeChat created now resp s)) = [init_error_message])
   \<and> sender_msg init_error_message = BOT
   \<and> (may_send s \<and> fails resp \<longrightarrow>
        (let log = snd (handleSendMessage now_user resp now_bot now_error s);
             recovery = last (butlast log);
             before = last (butlast (butlast log))
         in fst recovery = Send_Error
            \<and> messages (snd recovery) = messages (snd before) @ [send_error_message now_error]
            \<and> messages (fst (handleSendMessage now_user resp now_bot now_error s))
                = messages (snd recovery)
            \<and> length (filter (\<lambda>e. fst e = Send_Error) log) = 1))
   \<and> sender_msg (send_error_message now_error) = BOT"
proof (intro conjI impI)
  assume "init_fails created resp"
  then show "messages (fst (initializeChat created now resp s)) = [init_error_message]"
    by (auto simp: init_fails_def fails_def initializeChat_def Let_def setter_defs init_loop_run
        split: sum.splits response.splits completion.splits)
next
  show "sender_msg init_error_message = BOT"
    by (simp add: init_error_message_def)
  show "sender_msg (send_error_message now_error) = BOT"
    by (simp add: send_error_message_def)
next
  assume a: "may_send s \<and> fails resp"
  show "let log = snd (handleSendMessage now_user resp now_bot now_error s);
            recovery = last (butlast log);
            before = last (butlast (butlast log))
        in fst recovery = Send_Error
           \<and> messages (snd recovery) = messages (snd before) @ [send_error_message now_error]
           \<and> messages (fst (handleSendMessage now_user resp now_bot now_error s))
               = messages (snd recovery)
           \<and> length (filter (\<lambda>e. fst e = Send_Error) log) = 1"
  proof (cases resp)
    case (Rejected e)
    with a show ?thesis
      by (simp add: handleSendMessage_def Let_def setter_defs)
  next
    case (Resolved st)
    with a obtain e where e: "ending st = Thrown e"
      by (cases "ending st") (auto simp: fails_def)
    show ?thesis
      using a Resolved e
      by (simp add: handleSendMessage_def Let_def setter_defs send_loop_run
        butlast_append last_append last_map scan_eq_Nil last_scan merge_text_twice o_def)
  qed
qed

theorem error_recovery_asymmetric_witness:
  "init_fails (Inl (Error ''no session'')) (Resolved End)
   \<and> messages (fst (initializeChat (Inl (Error ''no session'')) 1000 (Resolved End) app_initial))
       = [init_error_message]
   \<and> init_fails (Inr demo_chat) demo_broken
   \<and> messages (fst (initializeChat (Inr demo_chat) 1000 demo_broken app_initial))
       = [init_error_message]
   \<and> may_send demo_ready \<and> fails demo_broken
   \<and> messages (fst (handleSendMessage 2000 demo_broken 2001 2002 demo_ready))
       = messages demo_ready @
          [\<lparr>id_msg = js ''user-2000'', text_msg = js ''I love drawing'', sender_msg = USER\<rparr>,
           \<lparr>id_msg = js ''bot-2001'', text_msg = js ''Hello there!'', sender_msg = BOT\<rparr>,
           send_error_message 2002]"
  using error_recovery_asymmetric [of "Inl (Error ''no session'')" "Resolved End" 1000 app_initial]
    error_recovery_asymmetric [of "Inr demo_chat" demo_broken 1000 app_initial]
    error_recovery_asymmetric [of _ demo_broken _ demo_ready 2000 2001 2002]
    demo_ready_may_send demo_broken_fails
  by (simp add: init_fails_def run_defs demo_defs)


section \<open>The pending flag\<close>

text \<open>
  Claim C4. In every run of \<^verbatim>\<open>initializeChat\<close> the flag \<^verbatim>\<open>isLoading\<close> is true in every
  published state but the last, which \<^verbatim>\<open>finally\<close> publishes with the flag cleared. In
  every run of \<^verbatim>\<open>handleSendMessage\<close> that passes the guard, the flag is false in the two
  updates before \<^verbatim>\<open>setIsLoading(true)\<close>, true from there to the last but one update, and
  false in the last; a call that the guard rejects publishes nothing. This holds for
  every outcome of the session creation, the send and the stream.
\<close>

theorem pending_round_trip:
  "map (\<lambda>e. isLoading (snd e)) (snd (initializeChat created now resp s))
     = replicate (length (snd (initializeChat created now resp s)) - 1) True @ [False]
   \<and> fst (hd (snd (initializeChat created now resp s))) = Init_Begin
   \<and> fst (last (snd (initializeChat created now resp s))) = Init_Finally
   \<and> \<not> isLoading (fst (initializeChat created now resp s))
   \<and> (may_send s \<longrightarrow>
        map (\<lambda>e. isLoading (snd e)) (snd (handleSendMessage now_user resp now_bot now_error s))
          = [False, False]
            @ replicate (length (snd (handleSendMessage now_user resp now_bot now_error s)) - 3) True
            @ [False]
        \<and> fst (snd (handleSendMessage now_user resp now_bot now_error s) ! 2) = Send_Begin
        \<and> fst (last (snd (handleSendMessage now_user resp now_bot now_error s))) = Send_Finally
        \<and> \<not> isLoading (fst (handleSendMessage now_user resp now_bot now_error s)))
   \<and> (\<not> may_send s \<longrightarrow> handleSendMessage now_user resp now_bot now_error s = (s, []))"
proof (intro conjI impI)
  let ?init = "initializeChat created now resp s"
  show "map (\<lambda>e. isLoading (snd e)) (snd ?init) = replicate (length (snd ?init) - 1) True @ [False]"
    by (simp add: initializeChat_def Let_def setter_defs init_loop_run comp_def
        map_replicate_const replicate_append_same
        split: sum.splits response.splits completion.splits)
  show "fst (hd (snd ?init)) = Init_Begin"
    by (simp add: initializeChat_def Let_def setter_defs init_loop_run
        split: sum.splits response.splits completion.splits)
  show "fst (last (snd ?init)) = Init_Finally"
    by (simp add: initializeChat_def Let_def setter_defs init_loop_run
        split: sum.splits response.splits completion.splits)
  show "\<not> isLoading (fst ?init)"
    by (simp add: initializeChat_def Let_def setter_defs split: prod.splits)
next
  assume ok: "may_send s"
  then have idle: "\<not> isLoading s" by (simp add: may_send_def)
  let ?send = "handleSendMessage now_user resp now_bot now_error s"
  show "map (\<lambda>e. isLoading (snd e)) (snd ?send)
          = [False, False] @ replicate (length (snd ?send) - 3) True @ [False]"
    using ok idle
    by (simp add: handleSendMessage_def Let_def setter_defs send_loop_run comp_def
        map_replicate_const replicate_append_same
        split: response.splits completion.splits)
  show "fst (snd ?send ! 2) = Send_Begin"
    using ok
    by (simp add: handleSendMessage_def Let_def setter_defs send_loop_run
        split: response.splits completion.splits)
  show "fst (last (snd ?send)) = Send_Finally"
    using ok
    by (simp add: handleSendMessage_def Let_def setter_defs send_loop_run
        split: response.splits completion.splits)
  show "\<not> isLoading (fst ?send)"
    using ok
    by (simp add: handleSendMessage_def Let_def setter_defs split: prod.splits)
next
  assume "\<not> may_send s"
  then show "handleSendMessage now_user resp now_bot now_error s = (s, [])"
    by (simp add: handleSendMessage_def)
qed

theorem pending_round_trip_witness:
  "may_send demo_ready
   \<and> map (\<lambda>e. isLoading (snd e)) (snd (handleSendMessage 2000 demo_broken 2001 2002 demo_ready))
       = [False, False, True, True, True, True, True, True, False]
   \<and> \<not> isLoading (fst (handleSendMessage 2000 demo_broken 2001 2002 demo_ready))
   \<and> \<not> may_send app_initial
   \<and> handleSendMessage 2000 demo_broken 2001 2002 app_initial = (app_initial, [])
   \<and> map (\<lambda>e. isLoading (snd e))
         (snd (initializeChat (Inr demo_chat) 1000 (Resolved (stream_of demo_fragments)) app_initial))
       = [True, True, True, True, True, True, False]"
  using pending_round_trip [of "Inr demo_chat" 1000 demo_broken demo_ready 2000 2001 2002]
    pending_round_trip [of "Inr demo_chat" 1000 demo_broken app_initial 2000 2001 2002]
    pending_round_trip [of "Inr demo_chat" 1000 "Resolved (stream_of demo_fragments)"
      app_initial 2000 2001 2002]
    demo_ready_may_send
  by (simp add: run_defs demo_defs may_send_def)


section \<open>Submitting a turn\<close>

text \<open>
  Claim C5 as stated fails: after a bootstrap turn that failed, initialization has not
  completed successfully, yet the session set before that turn is still in the state, the
  guard passes, and the call appends the user's message and streams the reply.
\<close>

theorem submit_after_failed_bootstrap:
  "init_fails (Inr demo_chat) (Rejected (Error ''offline''))
   \<and> map id_msg (messages (fst
         (initializeChat (Inr demo_chat) 1000 (Rejected (Error ''offline'')) app_initial)))
       = [js ''error-init'']
   \<and> map id_msg (messages (fst
         (handleSendMessage 2000 (Resolved (stream_of demo_fragments)) 2001 2002
            (setUserInput (js ''I love drawing'')
               (fst (initializeChat (Inr demo_chat) 1000 (Rejected (Error ''offline''))
                  app_initial))))))
       = [js ''error-init'', js ''user-2000'', js ''bot-2001'']"
  by (simp add: init_fails_def fails_def run_defs demo_defs may_send_def trim_def trim_char_def
      is_white_space_def is_line_terminator_def)

text \<open>
  Claim C5, as amended: the session exists from the moment it was created, also when
  the bootstrap turn failed afterwards. Where the input consists of white space only (or
  is empty), or \<^verbatim>\<open>isLoading\<close> holds, or there is no session, \<^verbatim>\<open>handleSendMessage\<close> returns
  without any update. Otherwise its first update appends the user's message, whose text is the input
  as typed; in the final list this message stands right after the messages that were
  there before, and the list has exactly one USER message more than before. Before
  \<^verbatim>\<open>initializeChat\<close> has ended, that is in the initial state and in every state that
  \<^verbatim>\<open>initializeChat\<close> publishes but the last, the call is such a no-op. After
  \<^verbatim>\<open>initializeChat\<close> there is a session exactly if \<^verbatim>\<open>createChatSession\<close> returned one.
\<close>

theorem submit_noop_or_one_user_message:
  "(((\<forall>c \<in> set (userInput s). trim_char c) \<or> isLoading s \<or> chat s = None) \<longrightarrow>
      handleSendMessage now_user resp now_bot now_error s = (s, []))
   \<and> (\<not> ((\<forall>c \<in> set (userInput s). trim_char c) \<or> isLoading s \<or> chat s = None) \<longrightarrow>
        (let run = handleSendMessage now_user resp now_bot now_error s;
             userMessage = \<lparr>id_msg = js ''user-'' @ decimal now_user,
                            text_msg = userInput s, sender_msg = USER\<rparr>
         in hd (snd run) = (Send_User, s\<lparr>messages := messages s @ [userMessage]\<rparr>)
            \<and> length (messages s) < length (messages (fst run))
            \<and> messages (fst run) ! length (messages s) = userMessage
            \<and> length (filter (\<lambda>m. sender_msg m = USER) (messages (fst run)))
                = Suc (length (filter (\<lambda>m. sender_msg m = USER) (messages s)))))
   \<and> handleSendMessage now_user resp now_bot now_error app_initial = (app_initial, [])
   \<and> (\<forall>e \<in> set (butlast (snd (initializeChat created now boot s0))).
        handleSendMessage now_user resp now_bot now_error (snd e) = (snd e, []))
   \<and> chat (fst (initializeChat created now boot app_initial))
       = (case created of Inl e \<Rightarrow> None | Inr c \<Rightarrow> Some c)"
proof (intro conjI impI ballI)
  show "chat (fst (initializeChat created now boot app_initial))
      = (case created of Inl e \<Rightarrow> None | Inr c \<Rightarrow> Some c)"
    by (cases created) (simp_all add: init_chat init_no_chat app_initial_def)
next
  show "handleSendMessage now_user resp now_bot now_error app_initial = (app_initial, [])"
    by (simp add: handleSendMessage_def may_send_def app_initial_def)
next
  fix e assume "e \<in> set (butlast (snd (initializeChat created now boot s0)))"
  then have "isLoading (snd e)" by (rule init_pending)
  then show "handleSendMessage now_user resp now_bot now_error (snd e) = (snd e, [])"
    by (simp add: handleSendMessage_def may_send_def)
next
  assume "(\<forall>c \<in> set (userInput s). trim_char c) \<or> isLoading s \<or> chat s = None"
  then have "\<not> may_send s" by (simp add: may_send_def trim_empty_iff)
  then show "handleSendMessage now_user resp now_bot now_error s = (s, [])"
    by (simp add: handleSendMessage_def)
next
  assume "\<not> ((\<forall>c \<in> set (userInput s). trim_char c) \<or> isLoading s \<or> chat s = None)"
  then have ok: "may_send s" by (simp add: may_send_def trim_empty_iff)
  show "let run = handleSendMessage now_user resp now_bot now_error s;
            userMessage = \<lparr>id_msg = js ''user-'' @ decimal now_user,
                           text_msg = userInput s, sender_msg = USER\<rparr>
        in hd (snd run) = (Send_User, s\<lparr>messages := messages s @ [userMessage]\<rparr>)
           \<and> length (messages s) < length (messages (fst run))
           \<and> messages (fst run) ! length (messages s) = userMessage
           \<and> length (filter (\<lambda>m. sender_msg m = USER) (messages (fst run)))
               = Suc (length (filter (\<lambda>m. sender_msg m = USER) (messages s)))"
    using ok user_id_not_bot_id [of now_user now_bot]
    by (simp add: handleSendMessage_def Let_def setter_defs send_loop_run
        send_error_message_def merge_text_append length_merge_text filter_sender_merge nth_append
        split: response.splits completion.splits)
      (simp add: merge_text_def)
qed

theorem submit_noop_or_one_user_message_witness:
  "handleSendMessage 2000 demo_broken 2001 2002 app_initial = (app_initial, [])
   \<and> handleSendMessage 2000 demo_broken 2001 2002 (demo_ready\<lparr>userInput := js ''  ''\<rparr>)
       = (demo_ready\<lparr>userInput := js ''  ''\<rparr>, [])
   \<and> messages (fst (handleSendMessage 2000 demo_broken 2001 2002 demo_ready)) ! 1
       = \<lparr>id_msg = js ''user-2000'', text_msg = js ''I love drawing'', sender_msg = USER\<rparr>
   \<and> length (filter (\<lambda>m. sender_msg m = USER)
         (messages (fst (handleSendMessage 2000 demo_broken 2001 2002 demo_ready)))) = 1
   \<and> handleSendMessage 2000 demo_broken 2001 2002
         (snd (snd (initializeChat (Inr demo_chat) 1000 (Resolved End) app_initial) ! 2))
       = (snd (snd (initializeChat (Inr demo_chat) 1000 (Resolved End) app_initial) ! 2), [])
   \<and> chat (fst (initializeChat (Inr demo_chat) 1000 (Resolved End) app_initial)) = Some demo_chat"
  using submit_noop_or_one_user_message [of app_initial 2000 demo_broken 2001 2002]
    submit_noop_or_one_user_message [of "demo_ready\<lparr>userInput := js ''  ''\<rparr>" 2000 demo_broken 2001 2002]
    submit_noop_or_one_user_message [of demo_ready 2000 demo_broken 2001 2002
      "Inr demo_chat" 1000 "Resolved End" app_initial]
    demo_ready_may_send
  by (simp add: run_defs demo_defs may_send_def trim_empty_iff trim_char_def is_white_space_def
      is_line_terminator_def)


section \<open>Merging by identifier\<close>

text \<open>
  Claim C6. Every update made at line 124 keeps the length of the list, replaces the text
  of each message whose identifier is the placeholder's by the text accumulated so far,
  and leaves every message with another identifier as it was in the state before.
\<close>

theorem merge_by_identifier:
  "may_send s
   \<and> k < length (snd (handleSendMessage now_user (Resolved st) now_bot now_error s))
   \<and> fst (snd (handleSendMessage now_user (Resolved st) now_bot now_error s) ! k) = Send_Chunk
   \<longrightarrow>
     (let log = snd (handleSendMessage now_user (Resolved st) now_bot now_error s);
          before = messages (state_before s log k);
          after = messages (snd (log ! k));
          botMessageId = js ''bot-'' @ decimal now_bot;
          acc = concat (take (k - 3) (chunks st))
      in length after = length before
         \<and> (\<forall>i < length before.
               (id_msg (before ! i) \<noteq> botMessageId \<longrightarrow> after ! i = before ! i)
             \<and> (id_msg (before ! i) = botMessageId \<longrightarrow>
                  after ! i = (before ! i)\<lparr>text_msg := acc\<rparr>)))"
proof
  let ?log = "snd (handleSendMessage now_user (Resolved st) now_bot now_error s)"
  let ?b = "js ''bot-'' @ decimal now_bot"
  let ?xs = "scan [] (chunks st)"
  assume a: "may_send s \<and> k < length ?log \<and> fst (?log ! k) = Send_Chunk"
  from send_log_shape [of s now_user st now_bot now_error] a
  obtain P Q s4 where
    log: "?log = P @ map (\<lambda>t. (Send_Chunk, s4\<lparr>messages := merge_text ?b t (messages s4)\<rparr>)) ?xs @ Q"
    and P: "length P = 4" "snd (last P) = s4" "\<forall>e \<in> set P. fst e \<noteq> Send_Chunk"
    and Q: "\<forall>e \<in> set Q. fst e \<noteq> Send_Chunk"
    by blast
  from chunk_position [OF log P(3) Q] a P(1)
  have k: "4 \<le> k" "k < 4 + length ?xs" by simp_all
  then have j': "k - 4 < length ?xs" by arith
  then have j: "k - 4 < length (chunks st)" by (simp add: length_scan)
  have "?log ! k = map (\<lambda>t. (Send_Chunk, s4\<lparr>messages := merge_text ?b t (messages s4)\<rparr>)) ?xs
      ! (k - 4)"
    using k j' P(1) by (simp add: log nth_append)
  then have after: "messages (snd (?log ! k)) = merge_text ?b (?xs ! (k - 4)) (messages s4)"
    using j' by simp
  have before: "merge_text ?b t (messages (state_before s ?log k)) = merge_text ?b t (messages s4)"
    for t
  proof (cases "k = 4")
    case True
    have "P \<noteq> []" using P(1) by auto
    then have "P ! 3 = last P" using P(1) by (simp add: last_conv_nth)
    then show ?thesis using True P by (simp add: state_before_def log nth_append)
  next
    case False
    with k have k5: "5 \<le> k" "k - 5 < length ?xs" "\<not> k - 1 < 4" "k - 1 - 4 = k - 5" by arith+
    have "?log ! (k - 1)
        = map (\<lambda>t. (Send_Chunk, s4\<lparr>messages := merge_text ?b t (messages s4)\<rparr>)) ?xs ! (k - 5)"
      using k5 P(1) by (simp add: log nth_append)
    then show ?thesis
      using k5 False by (simp add: state_before_def merge_text_twice)
  qed
  have len_before: "length (messages (state_before s ?log k)) = length (messages s4)"
    using before [of "[]"] length_merge_text [of ?b "[]"] by metis
  have acc: "?xs ! (k - 4) = concat (take (k - 3) (chunks st))"
  proof -
    from k have "Suc (k - 4) = k - 3" by arith
    with j show ?thesis by (simp add: nth_scan)
  qed
  have step: "messages (snd (?log ! k))
      = merge_text ?b (concat (take (k - 3) (chunks st))) (messages (state_before s ?log k))"
    using after before acc by simp
  show "let log = ?log;
          before = messages (state_before s log k);
          after = messages (snd (log ! k));
          botMessageId = js ''bot-'' @ decimal now_bot;
          acc = concat (take (k - 3) (chunks st))
      in length after = length before
         \<and> (\<forall>i < length before.
               (id_msg (before ! i) \<noteq> botMessageId \<longrightarrow> after ! i = before ! i)
             \<and> (id_msg (before ! i) = botMessageId \<longrightarrow>
                  after ! i = (before ! i)\<lparr>text_msg := acc\<rparr>))"
    unfolding Let_def step
    by (simp add: length_merge_text merge_text_nth)
qed

theorem merge_by_identifier_witness:
  "may_send demo_ready
   \<and> 5 < length (snd (handleSendMessage 2000 demo_broken 2001 2002 demo_ready))
   \<and> fst (snd (handleSendMessage 2000 demo_broken 2001 2002 demo_ready) ! 5) = Send_Chunk
   \<and> messages (snd (snd (handleSendMessage 2000 demo_broken 2001 2002 demo_ready) ! 5)) ! 1
       = messages (state_before demo_ready
           (snd (handleSendMessage 2000 demo_broken 2001 2002 demo_ready)) 5) ! 1
   \<and> messages (snd (snd (handleSendMessage 2000 demo_broken 2001 2002 demo_ready) ! 5)) ! 2
       = \<lparr>id_msg = js ''bot-2001'', text_msg = js ''Hello there'', sender_msg = BOT\<rparr>"
  using merge_by_identifier [of demo_ready 5 2000 "failing_after demo_fragments (Error ''network'')"
      2001 2002]
    demo_ready_may_send
  by (simp add: run_defs demo_defs state_before_def)


section \<open>The input control\<close>

text \<open>
  Claim C7 as stated fails: after an initialization that failed, the flag is cleared and
  the input control is enabled.
\<close>

theorem input_enabled_after_failed_init:
  "inputDisabled (App (fst (initializeChat (Inl (Error ''no session'')) 1000 (Resolved End) app_initial)))
     \<noteq> (isLoading (fst (initializeChat (Inl (Error ''no session'')) 1000 (Resolved End) app_initial))
        \<or> init_fails (Inl (Error ''no session'')) (Resolved End))"
  by (simp add: App_def init_fails_def run_defs app_initial_def)

text \<open>
  Claim C7, as amended. The input control is disabled exactly when \<^verbatim>\<open>isLoading\<close> holds;
  once \<^verbatim>\<open>initializeChat\<close> has ended, with or without a failure, it is enabled.
\<close>

theorem input_disabled_iff_pending:
  "inputDisabled (App s) = isLoading s
   \<and> \<not> inputDisabled (App (fst (initializeChat created now resp s)))"
  by (simp add: App_def init_not_loading)

theorem input_disabled_iff_pending_witness:
  "inputDisabled (App app_initial)
   \<and> \<not> inputDisabled (App demo_ready)
   \<and> \<not> inputDisabled (App (fst (initializeChat (Inr demo_chat) 1000 demo_broken app_initial)))
   \<and> \<not> inputDisabled
         (App (fst (initializeChat (Inl (Error ''no session'')) 1000 demo_broken app_initial)))"
  using input_disabled_iff_pending [of app_initial "Inr demo_chat" 1000 demo_broken]
    input_disabled_iff_pending [of demo_ready]
    input_disabled_iff_pending [of app_initial "Inl (Error ''no session'')" 1000 demo_broken]
  by (simp add: app_initial_def demo_ready_def)


section \<open>The credential\<close>

text \<open>
  Claim C8. Without \<^verbatim>\<open>API_KEY\<close> in the environment (or with an empty one) the service
  module throws when it is loaded, so the program stops before \<^verbatim>\<open>initializeChat\<close> runs.
  Whenever the program gets as far as a run of \<^verbatim>\<open>initializeChat\<close>, the credential was
  present and not empty, the session was requested for the client holding it, and the
  state has a session only if that request returned one.
\<close>

theorem credential_required:
  "geminiService None = Inl (Error ''API_KEY environment variable not set'')
   \<and> startup None rootElement create now resp
       = Inl (Error ''API_KEY environment variable not set'')
   \<and> startup (Some []) rootElement create now resp
       = Inl (Error ''API_KEY environment variable not set'')
   \<and> (startup API_KEY rootElement create now resp = Inr run \<longrightarrow>
        (\<exists>key. API_KEY = Some key \<and> key \<noteq> []
           \<and> run = initializeChat (create \<lparr>apiKey = key\<rparr> ''gemini-2.5-flash'') now resp
                   app_initial
           \<and> chat (fst run)
               = (case create \<lparr>apiKey = key\<rparr> ''gemini-2.5-flash'' of
                    Inl e \<Rightarrow> None | Inr c \<Rightarrow> Some c)))"
proof (intro conjI impI)
  show "geminiService None = Inl (Error ''API_KEY environment variable not set'')"
    by (simp add: geminiService_def)
  show "startup None rootElement create now resp
      = Inl (Error ''API_KEY environment variable not set'')"
    by (simp add: startup_def geminiService_def)
  show "startup (Some []) rootElement create now resp
      = Inl (Error ''API_KEY environment variable not set'')"
    by (simp add: startup_def geminiService_def)
next
  assume run: "startup API_KEY rootElement create now resp = Inr run"
  then obtain key where key: "API_KEY = Some key" "key \<noteq> []"
    by (auto simp: startup_def geminiService_def split: option.splits if_splits)
  with run have r: "run = initializeChat (create \<lparr>apiKey = key\<rparr> ''gemini-2.5-flash'') now resp
      app_initial"
    by (auto simp: startup_def geminiService_def createChatSession_def split: if_splits)
  have "chat (fst run)
      = (case create \<lparr>apiKey = key\<rparr> ''gemini-2.5-flash'' of Inl e \<Rightarrow> None | Inr c \<Rightarrow> Some c)"
    unfolding r
    by (cases "create \<lparr>apiKey = key\<rparr> ''gemini-2.5-flash''")
       (simp_all add: init_chat init_no_chat app_initial_def)
  with key r show "\<exists>key. API_KEY = Some key \<and> key \<noteq> []
           \<and> run = initializeChat (create \<lparr>apiKey = key\<rparr> ''gemini-2.5-flash'') now resp
                   app_initial
           \<and> chat (fst run)
               = (case create \<lparr>apiKey = key\<rparr> ''gemini-2.5-flash'' of
                    Inl e \<Rightarrow> None | Inr c \<Rightarrow> Some c)"
    by blast
qed

theorem credential_required_witness:
  "startup (Some (js ''secret'')) True demo_create 1000 (Resolved End)
     = Inr (initializeChat (Inr demo_chat) 1000 (Resolved End) app_initial)
   \<and> chat (fst (initializeChat (Inr demo_chat) 1000 (Resolved End) app_initial)) = Some demo_chat"
  using credential_required [of True demo_create 1000 "Resolved End" "Some (js ''secret'')"
      "initializeChat (Inr demo_chat) 1000 (Resolved End) app_initial"]
  by (simp add: startup_def geminiService_def createChatSession_def demo_create_def
      demo_chat_def js_def)

section \<open>Identifiers\<close>

text \<open>
  Claim C9 fails on the code. Identifiers are built from \<^verbatim>\<open>Date.now()\<close>, so two turns that
  read the same clock values get the same identifiers. The merge by identifier then writes
  the second reply into the first reply as well.
\<close>

theorem identifier_collision:
  "map id_msg (messages (fst (handleSendMessage 2000 (Resolved (stream_of [js ''Great''])) 2500 2500
       (setUserInput (js ''and painting'')
          (fst (handleSendMessage 2000 (Resolved (stream_of demo_fragments)) 2500 2500
                 demo_ready))))))
     = [js ''bot-init-1000'', js ''user-2000'', js ''bot-2500'', js ''user-2000'', js ''bot-2500'']
   \<and> map text_msg (messages (fst (handleSendMessage 2000 (Resolved (stream_of [js ''Great''])) 2500 2500
       (setUserInput (js ''and painting'')
          (fst (handleSendMessage 2000 (Resolved (stream_of demo_fragments)) 2500 2500
                 demo_ready))))))
     = [js ''Welcome!'', js ''I love drawing'', js ''Great'', js ''and painting'', js ''Great'']"
  by (simp add: run_defs demo_defs may_send_def trim_def trim_char_def is_white_space_def
      is_line_terminator_def)

section \<open>The placeholder of a failed turn\<close>

text \<open>
  Claim C10. A turn whose send is rejected adds the user's message and the error message
  and nothing else, and never reaches the update that creates the placeholder. A turn
  whose stream throws after the fragments \<open>fs\<close> has made that update fourth, after the
  send was accepted, and ends with three more messages than before: the user's message,
  the placeholder holding the concatenation of \<open>fs\<close>, and the error message.
\<close>

theorem placeholder_after_initiation:
  "may_send s \<longrightarrow>
     (let userMessage = \<lparr>id_msg = js ''user-'' @ decimal now_user,
                         text_msg = userInput s, sender_msg = USER\<rparr>;
          rejected = handleSendMessage now_user (Rejected e) now_bot now_error s;
          broken = handleSendMessage now_user (Resolved (failing_after fs e)) now_bot now_error s
      in messages (fst rejected) = messages s @ [userMessage, send_error_message now_error]
         \<and> Send_Placeholder \<notin> fst ` set (snd rejected)
         \<and> map fst (take 4 (snd broken)) = [Send_User, Send_ClearInput, Send_Begin, Send_Placeholder]
         \<and> length (messages (fst broken)) = length (messages s) + 3
         \<and> drop (length (messages s)) (messages (fst broken))
             = [userMessage,
                \<lparr>id_msg = js ''bot-'' @ decimal now_bot, text_msg = concat fs, sender_msg = BOT\<rparr>,
                send_error_message now_error])"
proof
  assume ok: "may_send s"
  have rej: "handleSendMessage now_user (Rejected e) now_bot now_error s =
     (s\<lparr>messages := messages s @ [\<lparr>id_msg = js ''user-'' @ decimal now_user,
                         text_msg = userInput s, sender_msg = USER\<rparr>, send_error_message now_error],
        userInput := [], isLoading := False\<rparr>,
      [(Send_User, s\<lparr>messages := messages s @ [\<lparr>id_msg = js ''user-'' @ decimal now_user,
                         text_msg = userInput s, sender_msg = USER\<rparr>]\<rparr>),
       (Send_ClearInput, s\<lparr>messages := messages s @ [\<lparr>id_msg = js ''user-'' @ decimal now_user,
                         text_msg = userInput s, sender_msg = USER\<rparr>], userInput := []\<rparr>),
       (Send_Begin, s\<lparr>messages := messages s @ [\<lparr>id_msg = js ''user-'' @ decimal now_user,
                         text_msg = userInput s, sender_msg = USER\<rparr>], userInput := [],
                      isLoading := True\<rparr>),
       (Send_Error, s\<lparr>messages := messages s @ [\<lparr>id_msg = js ''user-'' @ decimal now_user,
                         text_msg = userInput s, sender_msg = USER\<rparr>, send_error_message now_error],
                      userInput := [], isLoading := True\<rparr>),
       (Send_Finally, s\<lparr>messages := messages s @ [\<lparr>id_msg = js ''user-'' @ decimal now_user,
                         text_msg = userInput s, sender_msg = USER\<rparr>, send_error_message now_error],
                      userInput := [], isLoading := False\<rparr>)])"
    using ok by (simp add: handleSendMessage_def Let_def setter_defs)
  have msgs: "messages (fst (handleSendMessage now_user (Resolved (failing_after fs e)) now_bot now_error s))
      = (if fs = [] then messages s
         else merge_text (js ''bot-'' @ decimal now_bot) (concat fs) (messages s))
        @ [\<lparr>id_msg = js ''user-'' @ decimal now_user, text_msg = userInput s, sender_msg = USER\<rparr>,
           \<lparr>id_msg = js ''bot-'' @ decimal now_bot, text_msg = concat fs, sender_msg = BOT\<rparr>,
           send_error_message now_error]"
    using ok user_id_not_bot_id [of now_user now_bot]
    by (simp add: handleSendMessage_def Let_def setter_defs send_loop_run stream_simps
        merge_text_append)
       (auto simp: merge_text_def)
  have sites: "map fst (take 4 (snd (handleSendMessage now_user (Resolved (failing_after fs e)) now_bot now_error s)))
      = [Send_User, Send_ClearInput, Send_Begin, Send_Placeholder]"
    using ok
    by (simp add: handleSendMessage_def Let_def setter_defs send_loop_run stream_simps)
  show "let userMessage = \<lparr>id_msg = js ''user-'' @ decimal now_user,
                         text_msg = userInput s, sender_msg = USER\<rparr>;
          rejected = handleSendMessage now_user (Rejected e) now_bot now_error s;
          broken = handleSendMessage now_user (Resolved (failing_after fs e)) now_bot now_error s
      in messages (fst rejected) = messages s @ [userMessage, send_error_message now_error]
         \<and> Send_Placeholder \<notin> fst ` set (snd rejected)
         \<and> map fst (take 4 (snd broken)) = [Send_User, Send_ClearInput, Send_Begin, Send_Placeholder]
         \<and> length (messages (fst broken)) = length (messages s) + 3
         \<and> drop (length (messages s)) (messages (fst broken))
             = [userMessage,
                \<lparr>id_msg = js ''bot-'' @ decimal now_bot, text_msg = concat fs, sender_msg = BOT\<rparr>,
                send_error_message now_error]"
    unfolding Let_def msgs sites rej
    by (simp add: length_merge_text)
qed

theorem placeholder_after_initiation_witness:
  "may_send demo_ready
   \<and> messages (fst (handleSendMessage 2000 (Rejected (Error ''offline'')) 2001 2002 demo_ready))
       = messages demo_ready @
          [\<lparr>id_msg = js ''user-2000'', text_msg = js ''I love drawing'', sender_msg = USER\<rparr>,
           send_error_message 2002]
   \<and> drop 1 (messages (fst (handleSendMessage 2000
         (Resolved (failing_after [js ''You could'', js '' be''] (Error ''offline''))) 2001 2002 demo_ready)))
       = [\<lparr>id_msg = js ''user-2000'', text_msg = js ''I love drawing'', sender_msg = USER\<rparr>,
          \<lparr>id_msg = js ''bot-2001'', text_msg = js ''You could be'', sender_msg = BOT\<rparr>,
          send_error_message 2002]"
  using placeholder_after_initiation [of demo_ready 2000 "Error ''offline''" 2001 2002
      "[js ''You could'', js '' be'']"]
    demo_ready_may_send
  by (simp add: Let_def demo_ready_def js_def decimal.simps)

end
